theory Spec2Isabelle
  imports Complex_Main "HOL-Library.Word"
begin

section \<open>The global data of main.cpp\<close>

text \<open>
  The program keeps all of its data in global variables: three heap arrays indexed by the
  thread number (\<open>retire\<close>, \<open>count\<close>, \<open>total\<close>), the number of threads
  \<open>supported_threads\<close>, one pair of Mersenne Twister engines \<open>xgen\<close>, \<open>ygen\<close>, and
  the list \<open>deviation\<close>. They are the fields of the record \<open>state\<close>; every function
  of the program takes the state and returns the new one.

  \<^item> \<open>unsigned int\<close> and \<open>int\<close> are 32 bits wide (\<open>32 word\<close>: \<open>+\<close> wraps around,
    \<open>unat\<close> reads a word as unsigned, \<open>sint\<close> as two's complement); \<open>unsigned long long\<close>
    is \<open>64 word\<close>. Storing an \<open>unsigned int\<close> into an \<open>int\<close> keeps the 32 bits.
  \<^item> The field for the array \<open>total\<close> is written \<open>total'\<close>, since \<open>total\<close> is a
    constant of HOL.
  \<^item> The engine \<open>std::mt19937_64\<close> and the distribution \<open>std::uniform_real_distribution\<close>
    belong to the C++ library: the type \<open>'g\<close> of an engine's state and the function
    \<open>draw\<close>, which maps an engine state to the coordinate drawn and the advanced
    state, are parameters of the model. The two distributions \<open>x\<close> and \<open>y\<close> are
    configured alike and keep no state, so one function \<open>draw\<close> stands for both.
  \<^item> A \<open>long double\<close> is a value of \<open>ldouble\<close>: a finite real, an infinity or NaN. The
    rounding of a finite result to the format is the parameter \<open>rnd\<close> (the width of
    \<open>long double\<close> depends on the platform); signed zeros and overflow to an infinity are
    not modelled, the program's operands being far from both.
  \<^item> The threads share the memory without any synchronisation. The model is sequential:
    each function below is the effect of one thread's statements on the shared state, and
    a fact about one statement or one iteration holds for every state in which another
    thread may have left the memory.
\<close>

datatype ldouble = Finite real | PInf | NInf | NaN

record deviation =
  accuracy :: ldouble
  points :: "32 word"

record 'g state =
  supported_threads :: nat
  retire :: "bool list"
  count :: "32 word list"
  total' :: "32 word list"
  xgen :: 'g
  ygen :: 'g
  deviation :: "deviation list"

definition analysis_samples_rate :: nat where
  "analysis_samples_rate = 1000000"

text \<open>
  \<^verbatim>\<open>const double test_pi = 3.14159265358979324;\<close> The constant holds the \<open>double\<close>
  nearest to the literal, which is \<open>7074237752028440 / 2 ^ 51\<close>.
\<close>

definition test_pi :: real where
  "test_pi = 884279719003555 / 281474976710656"

section \<open>Arithmetic on long double\<close>

definition ld_of_int :: "32 word \<Rightarrow> ldouble" where
  "ld_of_int w = Finite (real_of_int (sint w))"

definition ld_of_unsigned :: "32 word \<Rightarrow> ldouble" where
  "ld_of_unsigned w = Finite (real (unat w))"

fun ld_div :: "(real \<Rightarrow> real) \<Rightarrow> ldouble \<Rightarrow> ldouble \<Rightarrow> ldouble" where
  "ld_div rnd (Finite a) (Finite b) =
     (if b \<noteq> 0 then Finite (rnd (a / b))
      else if a = 0 then NaN else if 0 < a then PInf else NInf)"
| "ld_div rnd (Finite a) PInf = Finite 0"
| "ld_div rnd (Finite a) NInf = Finite 0"
| "ld_div rnd PInf (Finite b) = (if 0 \<le> b then PInf else NInf)"
| "ld_div rnd NInf (Finite b) = (if 0 \<le> b then NInf else PInf)"
| "ld_div rnd _ _ = NaN"

fun ld_mul :: "(real \<Rightarrow> real) \<Rightarrow> ldouble \<Rightarrow> ldouble \<Rightarrow> ldouble" where
  "ld_mul rnd (Finite a) (Finite b) = Finite (rnd (a * b))"
| "ld_mul rnd PInf (Finite b) = (if b = 0 then NaN else if 0 < b then PInf else NInf)"
| "ld_mul rnd NInf (Finite b) = (if b = 0 then NaN else if 0 < b then NInf else PInf)"
| "ld_mul rnd (Finite a) PInf = (if a = 0 then NaN else if 0 < a then PInf else NInf)"
| "ld_mul rnd (Finite a) NInf = (if a = 0 then NaN else if 0 < a then NInf else PInf)"
| "ld_mul rnd PInf PInf = PInf"
| "ld_mul rnd NInf NInf = PInf"
| "ld_mul rnd PInf NInf = NInf"
| "ld_mul rnd NInf PInf = NInf"
| "ld_mul rnd _ _ = NaN"

fun ld_sub :: "(real \<Rightarrow> real) \<Rightarrow> ldouble \<Rightarrow> ldouble \<Rightarrow> ldouble" where
  "ld_sub rnd (Finite a) (Finite b) = Finite (rnd (a - b))"
| "ld_sub rnd (Finite a) PInf = NInf"
| "ld_sub rnd (Finite a) NInf = PInf"
| "ld_sub rnd PInf (Finite b) = PInf"
| "ld_sub rnd NInf (Finite b) = NInf"
| "ld_sub rnd PInf NInf = PInf"
| "ld_sub rnd NInf PInf = NInf"
| "ld_sub rnd _ _ = NaN"




text \<open>
  The value of an \<open>int\<close> variable that holds the sum \<open>N\<close> of unsigned counters: \<open>N\<close>
  reduced modulo \<open>2 ^ 32\<close> and read as a signed 32-bit integer.
\<close>

definition signed32 :: "nat \<Rightarrow> int" where
  "signed32 N =
     (if N mod 2 ^ 32 < 2 ^ 31 then int (N mod 2 ^ 32) else int (N mod 2 ^ 32) - 2 ^ 32)"

section \<open>analysis\<close>

text \<open>
  \<^verbatim>\<open>int count_in = 0, count_total = 0;
  for(int i = 1; i < supported_threads; ++i) {
      count_in += count[i];  count_total += total[i];
  }\<close>
  The accumulators are \<open>int\<close>, the summands \<open>unsigned int\<close>: each addition is done in
  \<open>unsigned int\<close> and stored back, so the accumulator is the 32-bit word of the sum.
\<close>

definition analysis_sums :: "'g state \<Rightarrow> 32 word \<times> 32 word" where
  "analysis_sums s =
     fold (\<lambda>i (count_in, count_total). (count_in + count s ! i, count_total + total' s ! i))
       [1..<supported_threads s] (0, 0)"

text \<open>
  \<^verbatim>\<open>long double calculated_pi = (long double)count_in / count_total * 4;
  deviation.push_back(deviation::deviation(test_pi - calculated_pi, count_total));\<close>
  Both accumulators are converted as signed integers; the constructor's parameter
  \<open>points\<close> is \<open>unsigned int\<close>, so it receives the word \<open>count_total\<close> itself.
\<close>

definition calculated_pi :: "(real \<Rightarrow> real) \<Rightarrow> 32 word \<Rightarrow> 32 word \<Rightarrow> ldouble" where
  "calculated_pi rnd count_in count_total =
     ld_mul rnd (ld_div rnd (ld_of_int count_in) (ld_of_int count_total)) (Finite 4)"

definition analysis :: "(real \<Rightarrow> real) \<Rightarrow> 'g state \<Rightarrow> 'g state" where
  "analysis rnd s =
     (case analysis_sums s of (count_in, count_total) \<Rightarrow>
        s\<lparr>deviation := deviation s @
          [\<lparr>accuracy = ld_sub rnd (Finite test_pi) (calculated_pi rnd count_in count_total),
            points = count_total\<rparr>]\<rparr>)"

section \<open>pi\_count\<close>

text \<open>
  \<^verbatim>\<open>sqrtl(x0 * x0 + y0 * y0) <= 1\<close> on the \<open>long double\<close> copies of the two coordinates
  drawn; every operation rounds its result.
\<close>

definition in_circle :: "(real \<Rightarrow> real) \<Rightarrow> real \<Rightarrow> real \<Rightarrow> bool" where
  "in_circle rnd x0 y0 = (rnd (sqrt (rnd (rnd (x0 * x0) + rnd (y0 * y0)))) \<le> 1)"

text \<open>\<^verbatim>\<open>count[n] = 0; total[n] = 0;\<close>: the first two statements of the thread.\<close>

definition pi_count_init :: "nat \<Rightarrow> 'g state \<Rightarrow> 'g state" where
  "pi_count_init n s = s\<lparr>count := (count s)[n := 0], total' := (total' s)[n := 0]\<rparr>"

text \<open>
  One iteration of the loop after the test of \<open>retire[n]\<close>, statement by statement:
  \<^verbatim>\<open>long double x0 = x(xgen), y0 = y(ygen);\<close>
\<close>

definition draw_point :: "('g \<Rightarrow> real \<times> 'g) \<Rightarrow> 'g state \<Rightarrow> (real \<times> real) \<times> 'g state" where
  "draw_point draw s =
     (case draw (xgen s) of (x0, gx) \<Rightarrow>
      case draw (ygen s) of (y0, gy) \<Rightarrow>
        ((x0, y0), s\<lparr>xgen := gx, ygen := gy\<rparr>))"

text \<open>\<^verbatim>\<open>if(sqrtl(x0 * x0 + y0 * y0) <= 1) ++count[n];\<close>\<close>

definition count_point :: "(real \<Rightarrow> real) \<Rightarrow> nat \<Rightarrow> real \<times> real \<Rightarrow> 'g state \<Rightarrow> 'g state" where
  "count_point rnd n p s =
     (if in_circle rnd (fst p) (snd p) then s\<lparr>count := (count s)[n := count s ! n + 1]\<rparr> else s)"

text \<open>\<^verbatim>\<open>++total[n];\<close>\<close>

definition total_point :: "nat \<Rightarrow> 'g state \<Rightarrow> 'g state" where
  "total_point n s = s\<lparr>total' := (total' s)[n := total' s ! n + 1]\<rparr>"

text \<open>\<^verbatim>\<open>if(n == 0 && i % analysis_samples_rate == 0) analysis();\<close>\<close>

definition checkpoint :: "(real \<Rightarrow> real) \<Rightarrow> nat \<Rightarrow> 64 word \<Rightarrow> 'g state \<Rightarrow> 'g state" where
  "checkpoint rnd n i s =
     (if n = 0 \<and> unat i mod analysis_samples_rate = 0 then analysis rnd s else s)"

definition pi_count_body ::
  "(real \<Rightarrow> real) \<Rightarrow> ('g \<Rightarrow> real \<times> 'g) \<Rightarrow> nat \<Rightarrow> 64 word \<Rightarrow> 'g state \<Rightarrow> 'g state" where
  "pi_count_body rnd draw n i s =
     (case draw_point draw s of (p, s1) \<Rightarrow>
        checkpoint rnd n i (total_point n (count_point rnd n p s1)))"

text \<open>
  The loop \<^verbatim>\<open>for(unsigned long long i = 0;; ++i) { if(retire[n]) break; ... }\<close> has no
  exit of its own: it runs until another thread sets \<open>retire[n]\<close>. The first argument
  bounds the number of iterations observed: \<open>pi_count_loop k\<close> is the state after the
  loop has left, or after \<open>k\<close> iterations when it is still running.
\<close>

fun pi_count_loop ::
  "nat \<Rightarrow> (real \<Rightarrow> real) \<Rightarrow> ('g \<Rightarrow> real \<times> 'g) \<Rightarrow> nat \<Rightarrow> 64 word \<Rightarrow> 'g state \<Rightarrow> 'g state" where
  "pi_count_loop 0 rnd draw n i s = s"
| "pi_count_loop (Suc k) rnd draw n i s =
     (if retire s ! n then s
      else pi_count_loop k rnd draw n (i + 1) (pi_count_body rnd draw n i s))"

definition pi_count ::
  "nat \<Rightarrow> (real \<Rightarrow> real) \<Rightarrow> ('g \<Rightarrow> real \<times> 'g) \<Rightarrow> nat \<Rightarrow> 'g state \<Rightarrow> 'g state" where
  "pi_count k rnd draw n s = pi_count_loop k rnd draw n 0 (pi_count_init n s)"

section \<open>main\<close>

text \<open>
  \<^verbatim>\<open>if(supported_threads == 0) supported_threads = 2;
  count = new unsigned int[supported_threads]; total = ...; retire = ...;\<close>
  \<open>new unsigned int[n]\<close> does not initialise the array: cell \<open>i\<close> holds whatever the
  allocator returns there, the parameters \<open>gc i\<close>, \<open>gt i\<close> and \<open>gr i\<close>. \<open>hc\<close> is the
  result of \<open>std::thread::hardware_concurrency()\<close>, \<open>sx\<close> and \<open>sy\<close> are the two engines as
  seeded from \<open>std::random_device\<close>.
\<close>

definition main_alloc ::
  "nat \<Rightarrow> (nat \<Rightarrow> 32 word) \<Rightarrow> (nat \<Rightarrow> 32 word) \<Rightarrow> (nat \<Rightarrow> bool) \<Rightarrow> 'g \<Rightarrow> 'g \<Rightarrow> 'g state" where
  "main_alloc hc gc gt gr sx sy =
     (let n = (if hc = 0 then 2 else hc) in
      \<lparr>supported_threads = n, retire = map gr [0..<n], count = map gc [0..<n],
       total' = map gt [0..<n], xgen = sx, ygen = sy, deviation = []\<rparr>)"

text \<open>
  The actions of the main thread on the flags and on the threads, in program order.
\<close>

datatype action = Set_retire nat bool | Launch nat | Join nat

text \<open>
  \<^verbatim>\<open>for(int i = 0; i < supported_threads; ++i) {
      retire[i] = false;
      threads[i] = std::thread(std::bind(pi_count, i));
  }\<close>
  \<open>launching\<close> is the memory as the loop leaves it, \<open>launch_snapshot i\<close> the memory as the
  main thread has written it when it launches thread \<open>i\<close>, \<open>launch_actions\<close> the actions
  of the loop.
\<close>

definition launch_step :: "nat \<Rightarrow> 'g state \<Rightarrow> 'g state" where
  "launch_step i s = s\<lparr>retire := (retire s)[i := False]\<rparr>"

definition launching :: "'g state \<Rightarrow> 'g state" where
  "launching s = fold launch_step [0..<supported_threads s] s"

definition launch_snapshot :: "nat \<Rightarrow> 'g state \<Rightarrow> 'g state" where
  "launch_snapshot i s = fold launch_step [0..<Suc i] s"

definition launch_actions :: "nat \<Rightarrow> action list" where
  "launch_actions n = concat (map (\<lambda>i. [Set_retire i False, Launch i]) [0..<n])"

text \<open>
  \<^verbatim>\<open>for(int i = 0; i < supported_threads; ++i) {
      printf("Sending interrupt signal to thread: %d and waiting to close.\n", i);
      retire[i] = true;
      threads[i].join();
  }\<close>
  \<open>stopping\<close> is the memory as the loop leaves it, \<open>stop_snapshot i\<close> the memory as the
  main thread has written it when it begins to wait for thread \<open>i\<close>, \<open>stop_actions\<close> the
  actions of the loop.
\<close>

definition stop_step :: "nat \<Rightarrow> 'g state \<Rightarrow> 'g state" where
  "stop_step i s = s\<lparr>retire := (retire s)[i := True]\<rparr>"

definition stopping :: "'g state \<Rightarrow> 'g state" where
  "stopping s = fold stop_step [0..<supported_threads s] s"

definition stop_snapshot :: "nat \<Rightarrow> 'g state \<Rightarrow> 'g state" where
  "stop_snapshot i s = fold stop_step [0..<Suc i] s"

definition stop_actions :: "nat \<Rightarrow> action list" where
  "stop_actions n = concat (map (\<lambda>i. [Set_retire i True, Join i]) [0..<n])"

text \<open>
  \<^verbatim>\<open>for(int i = 1; i < supported_threads; ++i) {
      count[0] += count[i];
      total[0] += count[i];
  }\<close>
\<close>

definition collect_step :: "nat \<Rightarrow> 'g state \<Rightarrow> 'g state" where
  "collect_step i s =
     (let s1 = s\<lparr>count := (count s)[0 := count s ! 0 + count s ! i]\<rparr>
      in s1\<lparr>total' := (total' s1)[0 := total' s1 ! 0 + count s1 ! i]\<rparr>)"

definition collect :: "'g state \<Rightarrow> 'g state" where
  "collect s = fold collect_step [1..<supported_threads s] s"

text \<open>\<^verbatim>\<open>(long double)count[0] / total[0] * 4\<close>, the value printed.\<close>

definition printed_pi :: "(real \<Rightarrow> real) \<Rightarrow> 'g state \<Rightarrow> ldouble" where
  "printed_pi rnd s =
     ld_mul rnd (ld_div rnd (ld_of_unsigned (count s ! 0)) (ld_of_unsigned (total' s ! 0)))
       (Finite 4)"

text \<open>The position of the first occurrence of an action in a list of actions.\<close>

definition pos :: "'a \<Rightarrow> 'a list \<Rightarrow> nat" where
  "pos a xs = length (takeWhile (\<lambda>b. b \<noteq> a) xs)"

section \<open>Engines and states for the examples\<close>

text \<open>
  An engine whose outputs are fixed in advance: its state is the list of the values it
  will still return, and a draw takes the first one.
\<close>

fun draw_tape :: "real list \<Rightarrow> real \<times> real list" where
  "draw_tape [] = (0, [])"
| "draw_tape (x # xs) = (x, xs)"

text \<open>
  An engine whose state counts its draws: the first draw returns 0.1, every later one
  0.9. The point (0.1, 0.1) lies in the circle, the point (0.9, 0.9) does not.
\<close>

definition draw_ramp :: "nat \<Rightarrow> real \<times> nat" where
  "draw_ramp g = (if g = 0 then 0.1 else 0.9, Suc g)"

text \<open>Two workers have been joined; slot 0 holds 1 of 3 points, slot 1 holds 2 of 4.\<close>

definition joined2 :: "real list state" where
  "joined2 = \<lparr>supported_threads = 2, retire = [True, True], count = [1, 2], total' = [3, 4],
     xgen = [], ygen = [], deviation = []\<rparr>"

text \<open>
  Two workers are running; the lead worker has counted its first point, the other worker
  has not counted any yet.
\<close>

definition lead_first2 :: "real list state" where
  "lead_first2 = \<lparr>supported_threads = 2, retire = [False, False], count = [1, 0],
     total' = [1, 0], xgen = [], ygen = [], deviation = []\<rparr>"


text \<open>Two workers are running; slot 1 holds \<open>2 ^ 30\<close> of \<open>2 ^ 31\<close> points.\<close>

definition wrapped2 :: "real list state" where
  "wrapped2 = \<lparr>supported_threads = 2, retire = [False, False], count = [0, 1073741824],
     total' = [0, 2147483648], xgen = [], ygen = [], deviation = []\<rparr>"

text \<open>
  Three workers are running; slot 1 holds \<open>3 * 2 ^ 30\<close> of \<open>3 * 2 ^ 30\<close> points, slot 2
  none of \<open>3 * 2 ^ 30\<close>: together \<open>3 * 2 ^ 30\<close> of \<open>3 * 2 ^ 31\<close>.
\<close>

definition halved3 :: "real list state" where
  "halved3 = \<lparr>supported_threads = 3, retire = [False, False, False],
     count = [0, 3221225472, 0], total' = [0, 3221225472, 3221225472],
     xgen = [], ygen = [], deviation = []\<rparr>"


text \<open>
  Two workers have just zeroed their slots; each engine will return 0.1 and then 0.9.
\<close>

definition shared2 :: "real list state" where
  "shared2 = \<lparr>supported_threads = 2, retire = [False, False], count = [0, 0],
     total' = [0, 0], xgen = [0.1, 0.9], ygen = [0.1, 0.9], deviation = []\<rparr>"

text \<open>Two workers have been launched; the engines have not been used yet.\<close>

definition ramp2 :: "nat state" where
  "ramp2 = \<lparr>supported_threads = 2, retire = [False, False], count = [0, 0],
     total' = [0, 0], xgen = 0, ygen = 0, deviation = []\<rparr>"

section \<open>Basic facts\<close>

subsection \<open>The constant and the test of the circle\<close>

lemma test_pi_double:
  "test_pi = 7074237752028440 / 2 ^ 51" and "\<bar>test_pi - 3.14159265358979324\<bar> < 1 / 2 ^ 52"
  by (simp_all add: test_pi_def abs_if)

text \<open>In exact arithmetic the test of \<open>pi_count\<close> is the test \<open>x0\<^sup>2 + y0\<^sup>2 \<le> 1\<close>.\<close>

lemma in_circle_exact: "in_circle (\<lambda>x. x) x0 y0 \<longleftrightarrow> x0\<^sup>2 + y0\<^sup>2 \<le> 1"
  by (simp add: in_circle_def power2_eq_square)

lemma draw_ramp_simps:
  "fst (draw_ramp g) = (if g = 0 then 0.1 else 0.9)" "snd (draw_ramp g) = Suc g"
  by (simp_all add: draw_ramp_def)

subsection \<open>Rounding to a significand\<close>











subsection \<open>The test of the circle under a rounding of bounded relative error\<close>





subsection \<open>32-bit words\<close>

lemma unat_inc_32:
  "unat w < 2 ^ 32 - 1 \<Longrightarrow> unat (w + 1 :: 32 word) = unat w + 1"
  by (simp add: unat_word_ariths)

lemma unat_inc_32_le:
  "unat (w :: 32 word) \<le> b \<Longrightarrow> b < 2 ^ 32 - 1 \<Longrightarrow> unat (w + 1) = unat w + 1"
  by (rule unat_inc_32) simp

lemma unat_of_nat_32: "unat (word_of_nat N :: 32 word) = N mod 2 ^ 32"
  by (simp add: unat_of_nat)

lemma sint_32_cases:
  "sint (w :: 32 word) = (if unat w < 2 ^ 31 then int (unat w) else int (unat w) - 2 ^ 32)"
proof -
  have b: "0 \<le> uint w" "uint w < 4294967296"
    using uint_lt2p [of w] by simp_all
  have s: "sint w = (uint w + 2147483648) mod 4294967296 - 2147483648"
    by (simp add: sint_uint signed_take_bit_eq_take_bit_shift take_bit_eq_mod)
  have u: "int (unat w) = uint w"
    by simp
  have m: "(k + 2147483648) mod 4294967296 =
      (if k < 2147483648 then k + 2147483648 else k - 2147483648)"
    if "0 \<le> k" "k < 4294967296" for k :: int
    using that by (simp add: mod_pos_pos_trivial mod_pos_geq)
  have "sint w = (if uint w < 2147483648 then uint w else uint w - 4294967296)"
    unfolding s m [OF b] by simp
  moreover have "unat w < 2147483648 \<longleftrightarrow> uint w < 2147483648"
    unfolding u [symmetric] by linarith
  ultimately show ?thesis
    unfolding u by simp
qed

lemma sint_of_nat_32:
  "sint (word_of_nat N :: 32 word) =
     (if N mod 2 ^ 32 < 2 ^ 31 then int (N mod 2 ^ 32) else int (N mod 2 ^ 32) - 2 ^ 32)"
  by (simp add: sint_32_cases unat_of_nat)

lemma sint_of_nat_32_neq:
  assumes "2 ^ 31 \<le> N"
  shows "sint (word_of_nat N :: 32 word) \<noteq> int N"
proof -
  have "sint (word_of_nat N :: 32 word) < 2 ^ 31"
    using sint_lt [of "word_of_nat N :: 32 word"] by simp
  moreover have "(2 :: int) ^ 31 \<le> int N"
    using assms by (simp only: numeral_power_le_of_nat_cancel_iff)
  ultimately show ?thesis
    by linarith
qed

lemma ld_of_int_of_nat:
  "ld_of_int (word_of_nat N) = Finite (real_of_int
     (if N mod 2 ^ 32 < 2 ^ 31 then int (N mod 2 ^ 32) else int (N mod 2 ^ 32) - 2 ^ 32))"
  unfolding ld_of_int_def by (simp only: sint_of_nat_32)

lemma unat_of_nat_32_self: "unat (word_of_nat N :: 32 word) = N \<longleftrightarrow> N < 2 ^ 32"
proof
  assume "unat (word_of_nat N :: 32 word) = N"
  moreover have "unat (word_of_nat N :: 32 word) < 2 ^ 32"
    using unsigned_less [of "word_of_nat N :: 32 word", where ?'a = nat] by simp
  ultimately show "N < 2 ^ 32"
    by simp
next
  assume "N < 2 ^ 32"
  then show "unat (word_of_nat N :: 32 word) = N"
    by (simp add: unat_of_nat_32)
qed

lemma signed32_self: "signed32 N = int N \<longleftrightarrow> N < 2 ^ 31"
proof
  assume a: "signed32 N = int N"
  show "N < 2 ^ 31"
  proof (rule ccontr)
    assume "\<not> N < 2 ^ 31"
    then have "2 ^ 31 \<le> N"
      by simp
    then have "sint (word_of_nat N :: 32 word) \<noteq> int N"
      by (rule sint_of_nat_32_neq)
    then show False
      using a by (simp add: signed32_def sint_of_nat_32)
  qed
next
  assume "N < 2 ^ 31"
  then show "signed32 N = int N"
    by (simp add: signed32_def)
qed

lemma ld_of_int_signed32: "ld_of_int (word_of_nat N) = Finite (real_of_int (signed32 N))"
  unfolding signed32_def by (rule ld_of_int_of_nat)

subsection \<open>Sums over the slots\<close>

lemma fold_pair_sums:
  "fold (\<lambda>i (a, b). (a + f i, b + g i)) xs (a0, b0) =
     (a0 + sum_list (map f xs), b0 + sum_list (map g xs))"
  by (induction xs arbitrary: a0 b0) (simp_all add: add.assoc)

lemma analysis_sums_eq:
  "analysis_sums s =
     (sum_list (map (\<lambda>i. count s ! i) [1..<supported_threads s]),
      sum_list (map (\<lambda>i. total' s ! i) [1..<supported_threads s]))"
  by (simp add: analysis_sums_def fold_pair_sums)

lemma word_sum_list_unat:
  "sum_list (map f xs) = (word_of_nat (sum_list (map (\<lambda>i. unat (f i)) xs)) :: 32 word)"
  by (induction xs) simp_all

subsection \<open>The fields after each statement\<close>

lemma analysis_eq:
  "analysis rnd s =
     s\<lparr>deviation := deviation s @
       [\<lparr>accuracy = ld_sub rnd (Finite test_pi)
            (calculated_pi rnd (sum_list (map (\<lambda>i. count s ! i) [1..<supported_threads s]))
               (sum_list (map (\<lambda>i. total' s ! i) [1..<supported_threads s]))),
         points = sum_list (map (\<lambda>i. total' s ! i) [1..<supported_threads s])\<rparr>]\<rparr>"
  by (simp add: analysis_def analysis_sums_eq)

lemma analysis_signed32:
  "analysis rnd s = s\<lparr>deviation := deviation s @
     [\<lparr>accuracy = ld_sub rnd (Finite test_pi)
         (ld_mul rnd (ld_div rnd
            (Finite (real_of_int (signed32
              (sum_list (map (\<lambda>i. unat (count s ! i)) [1..<supported_threads s])))))
            (Finite (real_of_int (signed32
              (sum_list (map (\<lambda>i. unat (total' s ! i)) [1..<supported_threads s]))))))
            (Finite 4)),
       points = word_of_nat
         (sum_list (map (\<lambda>i. unat (total' s ! i)) [1..<supported_threads s]))\<rparr>]\<rparr>"
proof -
  have "sum_list (map (\<lambda>i. count s ! i) [1..<supported_threads s]) =
      word_of_nat (sum_list (map (\<lambda>i. unat (count s ! i)) [1..<supported_threads s]))"
    and "sum_list (map (\<lambda>i. total' s ! i) [1..<supported_threads s]) =
      word_of_nat (sum_list (map (\<lambda>i. unat (total' s ! i)) [1..<supported_threads s]))"
    by (rule word_sum_list_unat)+
  then show ?thesis
    by (simp only: analysis_eq calculated_pi_def ld_of_int_signed32)
qed

text \<open>The accuracy recorded, by the cases of the division.\<close>

lemma record_cases:
  "ld_sub rnd (Finite c) (ld_mul rnd (ld_div rnd (Finite a) (Finite b)) (Finite 4)) =
     (if b \<noteq> 0 then Finite (rnd (c - rnd (rnd (a / b) * 4)))
      else if a = 0 then NaN else if 0 < a then NInf else PInf)"
  by simp

lemma analysis_fields:
  "supported_threads (analysis rnd s) = supported_threads s"
  "retire (analysis rnd s) = retire s"
  "count (analysis rnd s) = count s"
  "total' (analysis rnd s) = total' s"
  "xgen (analysis rnd s) = xgen s"
  "ygen (analysis rnd s) = ygen s"
  by (simp_all add: analysis_def split: prod.split)

lemma checkpoint_fields:
  "supported_threads (checkpoint rnd n i s) = supported_threads s"
  "retire (checkpoint rnd n i s) = retire s"
  "count (checkpoint rnd n i s) = count s"
  "total' (checkpoint rnd n i s) = total' s"
  "xgen (checkpoint rnd n i s) = xgen s"
  "ygen (checkpoint rnd n i s) = ygen s"
  by (simp_all add: checkpoint_def analysis_fields)

lemma init_fields:
  "supported_threads (pi_count_init n s) = supported_threads s"
  "retire (pi_count_init n s) = retire s"
  "count (pi_count_init n s) = (count s)[n := 0]"
  "total' (pi_count_init n s) = (total' s)[n := 0]"
  "xgen (pi_count_init n s) = xgen s"
  "ygen (pi_count_init n s) = ygen s"
  "deviation (pi_count_init n s) = deviation s"
  by (simp_all add: pi_count_init_def)

lemma draw_point_eq:
  "draw_point draw s =
     ((fst (draw (xgen s)), fst (draw (ygen s))),
      s\<lparr>xgen := snd (draw (xgen s)), ygen := snd (draw (ygen s))\<rparr>)"
  by (simp add: draw_point_def split: prod.split)

lemma count_point_fields:
  "supported_threads (count_point rnd n p s) = supported_threads s"
  "retire (count_point rnd n p s) = retire s"
  "total' (count_point rnd n p s) = total' s"
  "count (count_point rnd n p s) =
     (if in_circle rnd (fst p) (snd p) then (count s)[n := count s ! n + 1] else count s)"
  "xgen (count_point rnd n p s) = xgen s"
  "ygen (count_point rnd n p s) = ygen s"
  "deviation (count_point rnd n p s) = deviation s"
  by (simp_all add: count_point_def)

lemma total_point_fields:
  "supported_threads (total_point n s) = supported_threads s"
  "retire (total_point n s) = retire s"
  "total' (total_point n s) = (total' s)[n := total' s ! n + 1]"
  "count (total_point n s) = count s"
  "xgen (total_point n s) = xgen s"
  "ygen (total_point n s) = ygen s"
  "deviation (total_point n s) = deviation s"
  by (simp_all add: total_point_def)

lemma body_fields:
  "supported_threads (pi_count_body rnd draw n i s) = supported_threads s"
  "retire (pi_count_body rnd draw n i s) = retire s"
  "total' (pi_count_body rnd draw n i s) = (total' s)[n := total' s ! n + 1]"
  "count (pi_count_body rnd draw n i s) =
     (if in_circle rnd (fst (draw (xgen s))) (fst (draw (ygen s)))
      then (count s)[n := count s ! n + 1] else count s)"
  "xgen (pi_count_body rnd draw n i s) = snd (draw (xgen s))"
  "ygen (pi_count_body rnd draw n i s) = snd (draw (ygen s))"
  by (simp_all add: pi_count_body_def draw_point_eq checkpoint_fields total_point_fields
      count_point_fields)

lemma step_fields:
  "retire (stop_step k s) = (retire s)[k := True]"
  "retire (launch_step k s) = (retire s)[k := False]"
  "count (launch_step k s) = count s"
  "total' (launch_step k s) = total' s"
  "supported_threads (launch_step k s) = supported_threads s"
  by (simp_all add: stop_step_def launch_step_def)

subsection \<open>Positions in a list of pairs of actions\<close>

lemma pos_append:
  "pos a (xs @ ys) = (if a \<in> set xs then pos a xs else length xs + pos a ys)"
  by (auto simp add: pos_def takeWhile_append)

lemma pos_Cons: "pos a (x # xs) = (if x = a then 0 else Suc (pos a xs))"
  by (simp add: pos_def)

lemma pairs_Suc:
  "concat (map (\<lambda>i. [f i, g i]) [0..<Suc n]) =
     concat (map (\<lambda>i. [f i, g i]) [0..<n]) @ [f n, g n]"
  by simp

lemma pairs_length: "length (concat (map (\<lambda>i. [f i, g i]) [0..<n])) = 2 * n"
  by (induction n) simp_all

lemma pairs_set:
  "set (concat (map (\<lambda>i. [f i, g i]) [0..<n])) = f ` {..<n} \<union> g ` {..<n}"
  by (induction n) (auto simp add: lessThan_Suc)

lemma pairs_pos:
  assumes "inj f" and "inj g" and "\<And>i j. f i \<noteq> g j" and "i < n"
  shows "pos (f i) (concat (map (\<lambda>i. [f i, g i]) [0..<n])) = 2 * i"
    and "pos (g i) (concat (map (\<lambda>i. [f i, g i]) [0..<n])) = 2 * i + 1"
  using assms(4)
proof (induction n)
  case 0
  {
    case 1
    then show ?case by simp
  next
    case 2
    then show ?case by simp
  }
next
  case (Suc n)
  have nf: "f n \<notin> set (concat (map (\<lambda>i. [f i, g i]) [0..<n]))"
    and ng: "g n \<notin> set (concat (map (\<lambda>i. [f i, g i]) [0..<n]))"
    using assms(1-3) by (auto simp add: pairs_set inj_eq) (metis assms(3))+
  have fg: "f n \<noteq> g n" "g n \<noteq> f n"
    using assms(3) [of n n] by auto
  {
    case 1
    show ?case
    proof (cases "i < n")
      case True
      then show ?thesis
        using Suc.IH(1) by (simp only: pairs_Suc pos_append pairs_set) auto
    next
      case False
      with 1 have "i = n" by simp
      then show ?thesis
        using nf by (simp only: pairs_Suc pos_append pairs_length pos_Cons) simp
    qed
  next
    case 2
    show ?case
    proof (cases "i < n")
      case True
      then show ?thesis
        using Suc.IH(2) by (simp only: pairs_Suc pos_append pairs_set) auto
    next
      case False
      with 2 have "i = n" by simp
      then show ?thesis
        using ng fg by (simp only: pairs_Suc pos_append pairs_length pos_Cons) simp
    qed
  }
qed

section \<open>main: launching the workers\<close>

lemma launch_fold_fields:
  "length (retire (fold launch_step [0..<k] s)) = length (retire s)"
  "count (fold launch_step [0..<k] s) = count s"
  "total' (fold launch_step [0..<k] s) = total' s"
  "supported_threads (fold launch_step [0..<k] s) = supported_threads s"
  by (induction k) (simp_all add: step_fields)

lemma launch_fold_nth:
  "retire (fold launch_step [0..<k] s) ! j =
     (if j < k \<and> j < length (retire s) then False else retire s ! j)"
proof (induction k)
  case 0
  then show ?case by simp
next
  case (Suc k)
  show ?case
  proof (cases "j = k")
    case True
    then show ?thesis
      using Suc
      by (cases "k < length (retire s)")
        (simp_all add: step_fields launch_fold_fields list_update_beyond)
  next
    case False
    then show ?thesis
      using Suc by (simp add: step_fields less_Suc_eq)
  qed
qed

text \<open>
  C8 as stated (every slot is zeroed before its worker starts, and holds no unspecified
  value once the worker is launched) fails: when the allocator returns cells holding 7, 9
  and true, thread 0 is launched with \<open>count[0] = 7\<close> and \<open>total[0] = 9\<close>; only
  \<open>retire[0]\<close> has been written.
\<close>

theorem counters_unspecified_at_launch:
  "count (launch_snapshot 0
      (main_alloc 2 (\<lambda>i. 7) (\<lambda>i. 9) (\<lambda>i. True) [] ([] :: real list))) ! 0 = 7 \<and>
   total' (launch_snapshot 0
      (main_alloc 2 (\<lambda>i. 7) (\<lambda>i. 9) (\<lambda>i. True) [] ([] :: real list))) ! 0 = 9 \<and>
   retire (launch_snapshot 0
      (main_alloc 2 (\<lambda>i. 7) (\<lambda>i. 9) (\<lambda>i. True) [] ([] :: real list))) = [False, True]"
  by (simp add: launch_snapshot_def main_alloc_def launch_step_def upt_rec)

text \<open>
  C8, as the code has it. Before it launches thread \<open>i\<close> the main thread writes
  \<open>retire[i] = false\<close> and nothing else: the two counters of slot \<open>i\<close> are as allocated.
  The worker itself zeroes them with its first two statements; from then on the three
  fields of the slot are 0, 0 and false, whatever the allocator returned.
\<close>

theorem slot_initialisation:
  fixes sx sy :: 'g and gc gt :: "nat \<Rightarrow> 32 word" and gr :: "nat \<Rightarrow> bool"
  assumes "i < (if hc = 0 then 2 else hc)"
  defines "s \<equiv> launch_snapshot i (main_alloc hc gc gt gr sx sy)"
  shows "supported_threads s = (if hc = 0 then 2 else hc) \<and>
    retire s ! i = False \<and> count s ! i = gc i \<and> total' s ! i = gt i \<and>
    pos (Set_retire i False) (launch_actions (supported_threads s)) <
      pos (Launch i) (launch_actions (supported_threads s)) \<and>
    retire (pi_count_init i s) ! i = False \<and>
    count (pi_count_init i s) ! i = 0 \<and> total' (pi_count_init i s) ! i = 0"
proof -
  have inj: "inj (\<lambda>i. Set_retire i False)" "inj Launch"
    by (simp_all add: inj_def)
  have p: "pos (Set_retire i False) (launch_actions n) = 2 * i"
    "pos (Launch i) (launch_actions n) = 2 * i + 1" if "i < n" for n
    unfolding launch_actions_def using pairs_pos [OF inj _ that] by simp_all
  have n: "supported_threads s = (if hc = 0 then 2 else hc)"
    unfolding s_def launch_snapshot_def launch_fold_fields by (simp add: main_alloc_def)
  have l: "length (retire s) = (if hc = 0 then 2 else hc)"
    "length (count s) = (if hc = 0 then 2 else hc)"
    "length (total' s) = (if hc = 0 then 2 else hc)"
    unfolding s_def launch_snapshot_def launch_fold_fields by (simp_all add: main_alloc_def)
  have r: "retire s ! i = False" "count s ! i = gc i" "total' s ! i = gt i"
    using assms(1) unfolding s_def launch_snapshot_def launch_fold_fields launch_fold_nth
    by (simp_all add: main_alloc_def split: if_splits)
  show ?thesis
    using assms(1) n l r by (simp add: p init_fields)
qed

theorem slot_initialisation_witness:
  "(0 :: nat) < (if (2 :: nat) = 0 then 2 else 2) \<and>
   retire (launch_snapshot 0
      (main_alloc 2 (\<lambda>i. 7) (\<lambda>i. 9) (\<lambda>i. True) [] ([] :: real list))) ! 0 = False \<and>
   count (pi_count_init 0 (launch_snapshot 0
      (main_alloc 2 (\<lambda>i. 7) (\<lambda>i. 9) (\<lambda>i. True) [] ([] :: real list)))) = [0, 7] \<and>
   total' (pi_count_init 0 (launch_snapshot 0
      (main_alloc 2 (\<lambda>i. 7) (\<lambda>i. 9) (\<lambda>i. True) [] ([] :: real list)))) = [0, 9]"
  using slot_initialisation [where i = 0 and hc = 2 and gc = "\<lambda>i. 7" and gt = "\<lambda>i. 9"
      and gr = "\<lambda>i. True" and sx = "[]" and sy = "[] :: real list"]
  by (simp add: launch_snapshot_def main_alloc_def launch_step_def upt_rec pi_count_init_def)

section \<open>main: stopping the workers\<close>

lemma stop_fold_length: "length (retire (fold stop_step [0..<k] s)) = length (retire s)"
  by (induction k) (simp_all add: step_fields)

lemma stop_fold_nth:
  "retire (fold stop_step [0..<k] s) ! j =
     (if j < k \<and> j < length (retire s) then True else retire s ! j)"
proof (induction k)
  case 0
  then show ?case by simp
next
  case (Suc k)
  show ?case
  proof (cases "j = k")
    case True
    then show ?thesis
      using Suc
      by (cases "k < length (retire s)")
        (simp_all add: step_fields stop_fold_length list_update_beyond)
  next
    case False
    then show ?thesis
      using Suc by (simp add: step_fields less_Suc_eq)
  qed
qed

text \<open>
  C5 as stated (all stop flags are set before the first join) fails: with two workers the
  main thread waits for thread 0 (position 1) before it sets \<open>retire[1]\<close> (position 2),
  and \<open>retire[1]\<close> is still false while it waits.
\<close>

theorem join_before_later_flags:
  "stop_actions 2 = [Set_retire 0 True, Join 0, Set_retire 1 True, Join 1] \<and>
   pos (Join 0) (stop_actions 2) = 1 \<and> pos (Set_retire 1 True) (stop_actions 2) = 2 \<and>
   retire (stop_snapshot 0 shared2) = [True, False]"
  by (simp add: stop_actions_def upt_rec pos_def stop_snapshot_def stop_step_def shared2_def)

text \<open>
  C5, as the code has it. The loop handles one thread at a time: for every worker \<open>i\<close>
  the flag \<open>retire[i]\<close> is set immediately before the join of thread \<open>i\<close>, and that join
  comes before the flag of any later worker is set. When the main thread begins to wait
  for thread \<open>i\<close>, exactly the flags of the workers up to \<open>i\<close> have been set by it.
\<close>

theorem stop_order:
  assumes "i < n"
  shows "pos (Set_retire i True) (stop_actions n) = 2 * i \<and>
    pos (Join i) (stop_actions n) = 2 * i + 1 \<and>
    pos (Set_retire i True) (stop_actions n) < pos (Join i) (stop_actions n) \<and>
    (\<forall>j. i < j \<and> j < n \<longrightarrow>
       pos (Join i) (stop_actions n) < pos (Set_retire j True) (stop_actions n)) \<and>
    (\<forall>s :: 'g state. \<forall>j < length (retire s).
       retire (stop_snapshot i s) ! j = (if j \<le> i then True else retire s ! j))"
proof -
  have inj: "inj (\<lambda>i. Set_retire i True)" "inj Join"
    by (simp_all add: inj_def)
  have p: "pos (Set_retire j True) (stop_actions n) = 2 * j"
    "pos (Join j) (stop_actions n) = 2 * j + 1" if "j < n" for j
    unfolding stop_actions_def using pairs_pos [OF inj _ that] by simp_all
  have "retire (stop_snapshot i s) ! j = (if j \<le> i then True else retire s ! j)"
    if "j < length (retire s)" for s :: "'g state" and j
    using that unfolding stop_snapshot_def stop_fold_nth by (simp add: less_Suc_eq_le)
  then show ?thesis
    using assms by (simp add: p)
qed

theorem stop_order_witness:
  "(0 :: nat) < 2 \<and> pos (Set_retire 0 True) (stop_actions 2) = 0 \<and>
   pos (Join 0) (stop_actions 2) = 1 \<and>
   pos (Join 0) (stop_actions 2) < pos (Set_retire 1 True) (stop_actions 2) \<and>
   retire (stop_snapshot 0 shared2) ! 0 = True \<and> retire (stop_snapshot 0 shared2) ! 1 = False"
  using stop_order [of 0 2, where ?'g = "real list"]
  by (auto simp add: shared2_def stop_snapshot_def stop_step_def)

section \<open>main: collecting the totals\<close>

lemma collect_fold:
  assumes "\<forall>i\<in>set xs. 0 < i" and "0 < length (count s)" and "0 < length (total' s)"
  shows "fold collect_step xs s =
     s\<lparr>count := (count s)[0 := count s ! 0 + sum_list (map (\<lambda>i. count s ! i) xs)],
       total' := (total' s)[0 := total' s ! 0 + sum_list (map (\<lambda>i. count s ! i) xs)]\<rparr>"
  using assms
proof (induction xs rule: rev_induct)
  case Nil
  then show ?case by simp
next
  case (snoc x xs)
  then show ?case
    by (simp add: collect_step_def Let_def add.assoc)
qed

text \<open>
  What the loop computes in general: slot 0 of \<open>count\<close> receives the counts of all other
  slots, and slot 0 of \<open>total\<close> receives the same counts, not the totals.
\<close>

lemma collect_eq:
  assumes "0 < length (count s)" and "0 < length (total' s)"
  shows "count (collect s) ! 0 =
           count s ! 0 + sum_list (map (\<lambda>i. count s ! i) [1..<supported_threads s])"
    and "total' (collect s) ! 0 =
           total' s ! 0 + sum_list (map (\<lambda>i. count s ! i) [1..<supported_threads s])"
  using assms by (simp_all add: collect_def collect_fold)

text \<open>
  C1. After all workers have joined, the final totals should be the exact sums over all
  slots. On the state \<open>joined2\<close> (slot 0: 1 of 3 points in the circle, slot 1: 2 of 4)
  the sums are 3 points in the circle out of 7, and the loop of \<open>main\<close> leaves 3 in
  \<open>count[0]\<close> but 5 in \<open>total[0]\<close>: the statement \<^verbatim>\<open>total[0] += count[i]\<close> adds the
  other slot's count, 2, where its total, 4, is due.
\<close>

theorem collect_total_adds_count:
  "count (collect joined2) ! 0 = 3 \<and> total' (collect joined2) ! 0 = 5 \<and>
   sum_list (map unat (count joined2)) = 3 \<and> sum_list (map unat (total' joined2)) = 7"
  by (simp add: collect_def joined2_def collect_step_def upt_rec)

section \<open>pi\_count: the engines\<close>

text \<open>
  C3 as stated (every worker has engines of its own, and no two workers advance the same
  engine) fails: on \<open>shared2\<close> an iteration of worker 0 and an iteration of worker 1
  both advance the one engine \<open>xgen\<close>. Alone, worker 1 draws (0.1, 0.1) and counts a
  point in the circle; after an iteration of worker 0 it draws (0.9, 0.9) from the same
  engines and counts none.
\<close>

theorem shared_engine_interference:
  "xgen shared2 = [0.1, 0.9] \<and>
   xgen (pi_count_body (\<lambda>x. x) draw_tape 0 0 shared2) = [0.9] \<and>
   xgen (pi_count_body (\<lambda>x. x) draw_tape 1 0 shared2) = [0.9] \<and>
   xgen (pi_count_body (\<lambda>x. x) draw_tape 1 0
      (pi_count_body (\<lambda>x. x) draw_tape 0 0 shared2)) = [] \<and>
   count (pi_count_body (\<lambda>x. x) draw_tape 1 0 shared2) ! 1 = 1 \<and>
   count (pi_count_body (\<lambda>x. x) draw_tape 1 0
      (pi_count_body (\<lambda>x. x) draw_tape 0 0 shared2)) ! 1 = 0"
  by (simp add: body_fields shared2_def in_circle_exact power2_eq_square)

text \<open>
  C3, as the code has it. There is one pair of engines for the whole process: the
  iteration of any worker \<open>n\<close> takes its two coordinates from \<open>xgen\<close> and \<open>ygen\<close>,
  advances both, and classifies the point so drawn. An iteration of a worker \<open>m\<close> that
  follows an iteration of a worker \<open>n\<close> finds the engines as \<open>n\<close> left them, and
  leaves them advanced twice.
\<close>

theorem workers_share_engines:
  "draw_point draw s =
     ((fst (draw (xgen s)), fst (draw (ygen s))),
      s\<lparr>xgen := snd (draw (xgen s)), ygen := snd (draw (ygen s))\<rparr>) \<and>
   xgen (pi_count_body rnd draw n i s) = snd (draw (xgen s)) \<and>
   ygen (pi_count_body rnd draw n i s) = snd (draw (ygen s)) \<and>
   count (pi_count_body rnd draw n i s) =
     (if in_circle rnd (fst (draw (xgen s))) (fst (draw (ygen s)))
      then (count s)[n := count s ! n + 1] else count s) \<and>
   xgen (pi_count_body rnd draw m j (pi_count_body rnd draw n i s)) =
     snd (draw (snd (draw (xgen s)))) \<and>
   ygen (pi_count_body rnd draw m j (pi_count_body rnd draw n i s)) =
     snd (draw (snd (draw (ygen s))))"
  by (simp add: draw_point_eq body_fields)

section \<open>pi\_count: the test of the circle\<close>




section \<open>pi\_count: the counters of a slot\<close>

text \<open>
  One iteration of worker \<open>n\<close> on its own slot, as long as the 32-bit total does not wrap
  around. On every other slot the iteration changes nothing (\<open>body_frame\<close>), and the
  facts are about any state \<open>s\<close>: they hold whatever other threads have done in between.
\<close>

lemma body_slot:
  assumes "n < length (count s)" "n < length (total' s)"
    and "unat (count s ! n) \<le> unat (total' s ! n)" and "unat (total' s ! n) < 2 ^ 32 - 1"
  shows "unat (total' (pi_count_body rnd draw n i s) ! n) = unat (total' s ! n) + 1"
    and "unat (count s ! n) \<le> unat (count (pi_count_body rnd draw n i s) ! n)"
    and "unat (count (pi_count_body rnd draw n i s) ! n) \<le> unat (count s ! n) + 1"
    and "unat (count (pi_count_body rnd draw n i s) ! n) \<le>
         unat (total' (pi_count_body rnd draw n i s) ! n)"
  using assms
  by (simp_all add: body_fields unat_inc_32 unat_inc_32_le [of _ "unat (total' s ! n)"])

lemma body_frame:
  "m \<noteq> n \<Longrightarrow> count (pi_count_body rnd draw n i s) ! m = count s ! m"
  "m \<noteq> n \<Longrightarrow> total' (pi_count_body rnd draw n i s) ! m = total' s ! m"
  "retire (pi_count_body rnd draw n i s) ! m = retire s ! m"
  by (simp_all add: body_fields)

lemma mid_slot:
  assumes "n < length (count s)" "n < length (total' s)"
    and "unat (count s ! n) \<le> unat (total' s ! n)" and "unat (total' s ! n) < 2 ^ 32 - 1"
  shows "total' (count_point rnd n (fst (draw_point draw s)) (snd (draw_point draw s))) ! n
           = total' s ! n"
    and "unat (count (count_point rnd n (fst (draw_point draw s))
           (snd (draw_point draw s))) ! n) \<le> unat (total' s ! n) + 1"
  using assms
  by (simp_all add: draw_point_eq count_point_fields
      unat_inc_32_le [of _ "unat (total' s ! n)"])

lemma loop_slot:
  assumes "n < length (count s)" "n < length (total' s)"
    and "unat (count s ! n) \<le> unat (total' s ! n)" and "unat (total' s ! n) + k < 2 ^ 32"
  shows "unat (count (pi_count_loop k rnd draw n i s) ! n) \<le>
           unat (total' (pi_count_loop k rnd draw n i s) ! n) \<and>
         unat (total' (pi_count_loop k rnd draw n i s) ! n) =
           (if retire s ! n then unat (total' s ! n) else unat (total' s ! n) + k)"
  using assms
proof (induction k arbitrary: i s)
  case 0
  then show ?case by simp
next
  case (Suc k)
  show ?case
  proof (cases "retire s ! n")
    case True
    with Suc.prems show ?thesis by simp
  next
    case False
    let ?s = "pi_count_body rnd draw n i s"
    have t: "unat (total' s ! n) < 2 ^ 32 - 1"
      using Suc.prems(4) by simp
    have "unat (count (pi_count_loop k rnd draw n (i + 1) ?s) ! n) \<le>
            unat (total' (pi_count_loop k rnd draw n (i + 1) ?s) ! n) \<and>
          unat (total' (pi_count_loop k rnd draw n (i + 1) ?s) ! n) =
            (if retire ?s ! n then unat (total' ?s ! n) else unat (total' ?s ! n) + k)"
    proof (rule Suc.IH)
      show "n < length (count ?s)" "n < length (total' ?s)"
        using Suc.prems(1,2) by (simp_all add: body_fields)
      show "unat (count ?s ! n) \<le> unat (total' ?s ! n)"
        using Suc.prems(1-3) t by (rule body_slot)
      show "unat (total' ?s ! n) + k < 2 ^ 32"
        using body_slot(1) [OF Suc.prems(1-3) t, of rnd draw i] Suc.prems(4) by simp
    qed
    with False body_slot(1) [OF Suc.prems(1-3) t, of rnd draw i] show ?thesis
      by (simp add: body_fields)
  qed
qed

text \<open>The total of a running worker counts its iterations modulo \<open>2 ^ 32\<close>.\<close>

lemma loop_total:
  assumes "\<not> retire s ! n" and "n < length (total' s)"
  shows "total' (pi_count_loop k rnd draw n i s) ! n = total' s ! n + of_nat k"
  using assms
proof (induction k arbitrary: i s)
  case 0
  then show ?case by simp
next
  case (Suc k)
  have "total' (pi_count_loop k rnd draw n (i + 1) (pi_count_body rnd draw n i s)) ! n =
      total' (pi_count_body rnd draw n i s) ! n + of_nat k"
    using Suc.prems by (intro Suc.IH) (simp_all add: body_fields)
  then show ?case
    using Suc.prems by (simp add: body_fields)
qed

text \<open>Once the engine \<open>draw_ramp\<close> has been used, no further point is counted.\<close>

lemma loop_count_ramp:
  assumes "\<not> retire s ! n" and "0 < xgen s" and "0 < ygen s"
  shows "count (pi_count_loop k (\<lambda>x. x) draw_ramp n i s) = count s"
  using assms
proof (induction k arbitrary: i s)
  case 0
  then show ?case by simp
next
  case (Suc k)
  have "count (pi_count_loop k (\<lambda>x. x) draw_ramp n (i + 1)
        (pi_count_body (\<lambda>x. x) draw_ramp n i s)) =
      count (pi_count_body (\<lambda>x. x) draw_ramp n i s)"
    using Suc.prems by (intro Suc.IH) (simp_all add: body_fields draw_ramp_simps)
  then show ?case
    using Suc.prems
    by (simp add: body_fields draw_ramp_simps in_circle_exact power2_eq_square)
qed

text \<open>
  Worker 1 started on \<open>ramp2\<close>: its first point is counted, and after \<open>k + 1\<close> iterations
  its slot holds the count 1 and the total \<open>k + 1\<close> modulo \<open>2 ^ 32\<close>.
\<close>

lemma ramp_run:
  "count (pi_count (Suc k) (\<lambda>x. x) draw_ramp 1 ramp2) ! 1 = 1"
  "total' (pi_count (Suc k) (\<lambda>x. x) draw_ramp 1 ramp2) ! 1 = of_nat (Suc k)"
proof -
  let ?s = "pi_count_body (\<lambda>x. x) draw_ramp 1 0 (pi_count_init 1 ramp2)"
  have r: "\<not> retire ?s ! 1" "0 < xgen ?s" "0 < ygen ?s" "1 < length (total' ?s)"
    by (simp_all add: body_fields init_fields ramp2_def draw_ramp_simps)
  have c: "count ?s ! 1 = 1" "total' ?s ! 1 = 1"
    by (simp_all add: body_fields init_fields ramp2_def draw_ramp_simps in_circle_exact
        power2_eq_square)
  have u: "pi_count (Suc k) (\<lambda>x. x) draw_ramp 1 ramp2 =
      pi_count_loop k (\<lambda>x. x) draw_ramp 1 1 ?s"
    by (simp add: pi_count_def init_fields ramp2_def)
  show "count (pi_count (Suc k) (\<lambda>x. x) draw_ramp 1 ramp2) ! 1 = 1"
    unfolding u loop_count_ramp [OF r(1-3)] by (rule c)
  show "total' (pi_count (Suc k) (\<lambda>x. x) draw_ramp 1 ramp2) ! 1 = of_nat (Suc k)"
    unfolding u loop_total [OF r(1,4)] c by simp
qed

text \<open>
  C4 as stated (\<open>count[n] \<le> total[n]\<close> at every observation, both counters never
  decreasing) fails twice. On \<open>shared2\<close>, after worker 1 has executed \<^verbatim>\<open>++count[1]\<close> and
  before \<^verbatim>\<open>++total[1]\<close>, the slot holds count 1 and total 0. And worker 1 started on
  \<open>ramp2\<close> holds count 1 and total \<open>2 ^ 32 - 1\<close> after \<open>2 ^ 32 - 1\<close> iterations; its next
  iteration takes the total to 0 while the count stays 1.
\<close>

theorem counters_exceed_total:
  "count (count_point (\<lambda>x. x) 1 (fst (draw_point draw_tape shared2))
      (snd (draw_point draw_tape shared2))) ! 1 = 1 \<and>
   total' (count_point (\<lambda>x. x) 1 (fst (draw_point draw_tape shared2))
      (snd (draw_point draw_tape shared2))) ! 1 = 0 \<and>
   total' (pi_count 4294967295 (\<lambda>x. x) draw_ramp 1 ramp2) ! 1 = 4294967295 \<and>
   count (pi_count 4294967295 (\<lambda>x. x) draw_ramp 1 ramp2) ! 1 = 1 \<and>
   total' (pi_count 4294967296 (\<lambda>x. x) draw_ramp 1 ramp2) ! 1 = 0 \<and>
   count (pi_count 4294967296 (\<lambda>x. x) draw_ramp 1 ramp2) ! 1 = 1"
proof -
  have a: "(4294967295 :: nat) = Suc 4294967294" "(4294967296 :: nat) = Suc 4294967295"
    by simp_all
  have "total' (pi_count 4294967295 (\<lambda>x. x) draw_ramp 1 ramp2) ! 1 = 4294967295"
    "count (pi_count 4294967295 (\<lambda>x. x) draw_ramp 1 ramp2) ! 1 = 1"
    "total' (pi_count 4294967296 (\<lambda>x. x) draw_ramp 1 ramp2) ! 1 = 0"
    "count (pi_count 4294967296 (\<lambda>x. x) draw_ramp 1 ramp2) ! 1 = 1"
    unfolding a ramp_run by simp_all
  then show ?thesis
    by (simp add: shared2_def in_circle_exact power2_eq_square count_point_def
        draw_point_def)
qed

text \<open>
  C4, as the code has it. Let slot \<open>n\<close> satisfy \<open>count[n] \<le> total[n]\<close> and let the
  next \<open>k\<close> iterations not carry \<open>total[n]\<close> past \<open>2 ^ 32 - 1\<close>. Then
  \<^item> after \<^verbatim>\<open>++count[n]\<close> and before \<^verbatim>\<open>++total[n]\<close> (state \<open>s1\<close>) the count is at most
    the total plus one;
  \<^item> a whole iteration (state \<open>s2\<close>) adds exactly one to the total and at most one to
    the count, keeps \<open>count[n] \<le> total[n]\<close> and leaves every other slot as it was;
  \<^item> after the loop has run for up to \<open>k\<close> iterations (state \<open>sk\<close>) the count is at
    most the total, and the total has grown by \<open>k\<close> unless \<open>retire[n]\<close> was set.
\<close>

theorem slot_counters:
  fixes s :: "'g state"
  assumes "n < length (count s)" and "n < length (total' s)"
    and "unat (count s ! n) \<le> unat (total' s ! n)"
    and "0 < k" and "unat (total' s ! n) + k < 2 ^ 32"
  shows "let s1 = count_point rnd n (fst (draw_point draw s)) (snd (draw_point draw s));
             s2 = pi_count_body rnd draw n i s;
             sk = pi_count_loop k rnd draw n i s
         in total' s1 ! n = total' s ! n \<and>
            unat (count s1 ! n) \<le> unat (total' s1 ! n) + 1 \<and>
            unat (total' s2 ! n) = unat (total' s ! n) + 1 \<and>
            unat (count s ! n) \<le> unat (count s2 ! n) \<and>
            unat (count s2 ! n) \<le> unat (count s ! n) + 1 \<and>
            unat (count s2 ! n) \<le> unat (total' s2 ! n) \<and>
            (\<forall>m. m \<noteq> n \<longrightarrow> count s2 ! m = count s ! m \<and> total' s2 ! m = total' s ! m) \<and>
            unat (count sk ! n) \<le> unat (total' sk ! n) \<and>
            unat (total' sk ! n) =
              (if retire s ! n then unat (total' s ! n) else unat (total' s ! n) + k)"
proof -
  have t: "unat (total' s ! n) < 2 ^ 32 - 1"
    using assms(4,5) by simp
  note a = assms(1-3)
  show ?thesis
    unfolding Let_def
    using mid_slot [OF a t, of rnd draw] body_slot [OF a t, of rnd draw i]
      loop_slot [OF a assms(5), of rnd draw i] body_frame(1,2) [of _ n rnd draw i s]
    by simp
qed

theorem slot_counters_witness:
  "unat (count shared2 ! 1) \<le> unat (total' shared2 ! 1) \<and>
   count (pi_count_body (\<lambda>x. x) draw_tape 1 0 shared2) = [0, 1] \<and>
   total' (pi_count_body (\<lambda>x. x) draw_tape 1 0 shared2) = [0, 1] \<and>
   count (pi_count_loop (Suc (Suc 0)) (\<lambda>x. x) draw_tape 1 0 shared2) = [0, 1] \<and>
   total' (pi_count_loop (Suc (Suc 0)) (\<lambda>x. x) draw_tape 1 0 shared2) = [0, 2] \<and>
   unat (total' (pi_count_loop (Suc (Suc 0)) (\<lambda>x. x) draw_tape 1 0 shared2) ! 1) =
     unat (total' shared2 ! 1) + 2"
  using slot_counters [of 1 shared2 "Suc (Suc 0)" "\<lambda>x. x" draw_tape 0]
  by (simp add: shared2_def body_fields in_circle_def)

section \<open>pi\_count: the first iteration of the lead worker\<close>

text \<open>
  C9. The loop counter starts at 0, and 0 is a multiple of \<open>analysis_samples_rate\<close>. If
  \<open>retire[0]\<close> is not set when worker 0 starts, its first iteration ends with a call of
  \<open>analysis\<close>, in the state \<open>s1\<close> where worker 0 has counted exactly one point
  (\<open>total[0] = 1\<close>). The record appended is computed from the slots from 1 on as they
  are then; nothing is assumed about them.
\<close>

theorem lead_first_checkpoint:
  fixes s :: "'g state" and rnd :: "real \<Rightarrow> real" and draw :: "'g \<Rightarrow> real \<times> 'g"
  assumes "\<not> retire s ! 0" and "0 < length (total' s)"
  defines "s0 \<equiv> pi_count_init 0 s"
  defines "s1 \<equiv> total_point 0
    (count_point rnd 0 (fst (draw_point draw s0)) (snd (draw_point draw s0)))"
  shows "unat (0 :: 64 word) mod analysis_samples_rate = 0 \<and>
    pi_count 1 rnd draw 0 s = analysis rnd s1 \<and>
    total' s1 ! 0 = 1 \<and>
    deviation (pi_count 1 rnd draw 0 s) = deviation s @
      [\<lparr>accuracy = ld_sub rnd (Finite test_pi)
          (calculated_pi rnd (sum_list (map (\<lambda>i. count s ! i) [1..<supported_threads s]))
            (sum_list (map (\<lambda>i. total' s ! i) [1..<supported_threads s]))),
        points = sum_list (map (\<lambda>i. total' s ! i) [1..<supported_threads s])\<rparr>]"
proof -
  have r: "\<not> retire s0 ! 0"
    using assms(1) by (simp add: s0_def init_fields)
  have p: "pi_count 1 rnd draw 0 s = analysis rnd s1"
    using r by (simp add: pi_count_def s0_def [symmetric] pi_count_body_def s1_def
        checkpoint_def split: prod.split)
  have t: "total' s1 ! 0 = 1"
    using assms(2) by (simp add: s1_def s0_def total_point_fields count_point_fields
        draw_point_eq init_fields)
  have c: "count s1 ! j = count s ! j" "total' s1 ! j = total' s ! j"
    if "j \<in> set [1..<supported_threads s]" for j
    using that by (simp_all add: s1_def s0_def total_point_fields count_point_fields
        draw_point_eq init_fields)
  have n: "supported_threads s1 = supported_threads s" "deviation s1 = deviation s"
    by (simp_all add: s1_def s0_def total_point_fields count_point_fields draw_point_eq
        init_fields)
  have e: "sum_list (map (\<lambda>i. count s1 ! i) [1..<supported_threads s]) =
        sum_list (map (\<lambda>i. count s ! i) [1..<supported_threads s])"
      "sum_list (map (\<lambda>i. total' s1 ! i) [1..<supported_threads s]) =
        sum_list (map (\<lambda>i. total' s ! i) [1..<supported_threads s])"
    by (rule arg_cong [where f = sum_list], rule map_cong [OF refl], rule c, assumption)+
  have d: "deviation (analysis rnd s1) = deviation s @
      [\<lparr>accuracy = ld_sub rnd (Finite test_pi)
          (calculated_pi rnd (sum_list (map (\<lambda>i. count s ! i) [1..<supported_threads s]))
            (sum_list (map (\<lambda>i. total' s ! i) [1..<supported_threads s]))),
        points = sum_list (map (\<lambda>i. total' s ! i) [1..<supported_threads s])\<rparr>]"
    by (simp only: analysis_eq n e) simp
  show ?thesis
    using p t d by simp
qed

text \<open>
  On \<open>shared2\<close> the other worker has not counted any point when the first record is
  made: it is the record of \<open>0 / 0\<close>.
\<close>

theorem lead_first_checkpoint_witness:
  "\<not> retire shared2 ! 0 \<and>
   total' (pi_count 1 (\<lambda>x. x) draw_tape 0 shared2) = [1, 0] \<and>
   count (pi_count 1 (\<lambda>x. x) draw_tape 0 shared2) = [1, 0] \<and>
   deviation (pi_count 1 (\<lambda>x. x) draw_tape 0 shared2) = [\<lparr>accuracy = NaN, points = 0\<rparr>]"
  using lead_first_checkpoint [of shared2 "\<lambda>x. x" draw_tape]
  by (simp add: shared2_def analysis_def analysis_sums_def total_point_def count_point_def
      draw_point_eq pi_count_init_def in_circle_def calculated_pi_def ld_of_int_def upt_rec)

section \<open>analysis: the record appended\<close>

text \<open>
  C2. When the summed total over the slots from 1 on is zero, the sampler should append
  no record that comes from a division by zero. On the state \<open>lead_first2\<close> (the lead
  worker has counted one point, the other worker none) both sums are 0, the quotient
  \<open>0 / 0\<close> is NaN, and \<open>analysis\<close> appends the record with accuracy NaN and 0 points,
  whatever the rounding.
\<close>

theorem analysis_appends_nan:
  "deviation (analysis rnd lead_first2) = [\<lparr>accuracy = NaN, points = 0\<rparr>]"
  by (simp add: analysis_def analysis_sums_def lead_first2_def calculated_pi_def
      ld_of_int_def upt_rec)




section \<open>analysis: the sums and the true sums\<close>

text \<open>
  C10 as stated (once the true sums have reached \<open>2 ^ 31\<close>, the recorded sample count and
  the estimate are not those of the true sums) fails. On \<open>wrapped2\<close> the true total is
  \<open>2 ^ 31\<close> and the record holds \<open>2 ^ 31\<close> points: the field is unsigned, and the count
  differs from the true sum only from \<open>2 ^ 32\<close> on. On \<open>halved3\<close> the true sums are
  \<open>3 * 2 ^ 30\<close> of \<open>3 * 2 ^ 31\<close> points; they are read as \<open>- 2 ^ 30\<close> and \<open>- 2 ^ 31\<close>,
  and the deviation recorded is that of the true sums, \<open>test_pi - 2\<close>.
\<close>

theorem wrapped_record_of_true_sums:
  "sum_list (map (\<lambda>i. unat (total' wrapped2 ! i)) [1..<supported_threads wrapped2]) =
     2147483648 \<and>
   unat (points (last (deviation (analysis (\<lambda>x. x) wrapped2)))) = 2147483648 \<and>
   sum_list (map (\<lambda>i. unat (count halved3 ! i)) [1..<supported_threads halved3]) =
     3221225472 \<and>
   sum_list (map (\<lambda>i. unat (total' halved3 ! i)) [1..<supported_threads halved3]) =
     6442450944 \<and>
   accuracy (last (deviation (analysis (\<lambda>x. x) halved3))) =
     Finite (test_pi - 4 * 3221225472 / 6442450944)"
  by (simp add: analysis_def analysis_sums_def wrapped2_def halved3_def calculated_pi_def
      ld_of_int_def upt_rec)

text \<open>
  C10, as the code has it. Let \<open>true_in\<close> and \<open>true_total\<close> be the sums of the unsigned
  counters of the slots from 1 on, as natural numbers. \<open>analysis\<close> holds them in \<open>int\<close>
  variables. The record's points are \<open>true_total mod 2 ^ 32\<close>, which is \<open>true_total\<close>
  exactly when \<open>true_total < 2 ^ 32\<close>. The accuracy is computed from \<open>signed32 true_in\<close>
  and \<open>signed32 true_total\<close>, the sums reduced modulo \<open>2 ^ 32\<close> and read as signed; each
  is the true sum exactly when that sum is below \<open>2 ^ 31\<close>. The accuracy is finite with
  one rounding per operation when \<open>signed32 true_total\<close> is not 0, and NaN or an infinity
  when it is 0.
\<close>

theorem analysis_sums_wrap:
  fixes s :: "'g state"
  defines "true_in \<equiv> sum_list (map (\<lambda>i. unat (count s ! i)) [1..<supported_threads s])"
    and "true_total \<equiv> sum_list (map (\<lambda>i. unat (total' s ! i)) [1..<supported_threads s])"
  shows "analysis rnd s = s\<lparr>deviation := deviation s @
        [\<lparr>accuracy = ld_sub rnd (Finite test_pi)
            (ld_mul rnd (ld_div rnd (Finite (real_of_int (signed32 true_in)))
               (Finite (real_of_int (signed32 true_total)))) (Finite 4)),
          points = word_of_nat true_total\<rparr>]\<rparr> \<and>
    unat (word_of_nat true_total :: 32 word) = true_total mod 2 ^ 32 \<and>
    accuracy (last (deviation (analysis rnd s))) =
      (if signed32 true_total \<noteq> 0
       then Finite (rnd (test_pi - rnd (rnd (real_of_int (signed32 true_in) /
              real_of_int (signed32 true_total)) * 4)))
       else if signed32 true_in = 0 then NaN
       else if 0 < signed32 true_in then NInf else PInf) \<and>
    (unat (word_of_nat true_total :: 32 word) = true_total \<longleftrightarrow> true_total < 2 ^ 32) \<and>
    (signed32 true_in = int true_in \<longleftrightarrow> true_in < 2 ^ 31) \<and>
    (signed32 true_total = int true_total \<longleftrightarrow> true_total < 2 ^ 31)"
proof -
  have a: "analysis rnd s = s\<lparr>deviation := deviation s @
        [\<lparr>accuracy = ld_sub rnd (Finite test_pi)
            (ld_mul rnd (ld_div rnd (Finite (real_of_int (signed32 true_in)))
               (Finite (real_of_int (signed32 true_total)))) (Finite 4)),
          points = word_of_nat true_total\<rparr>]\<rparr>"
    unfolding true_in_def true_total_def by (rule analysis_signed32)
  have b: "accuracy (last (deviation (analysis rnd s))) =
      (if signed32 true_total \<noteq> 0
       then Finite (rnd (test_pi - rnd (rnd (real_of_int (signed32 true_in) /
              real_of_int (signed32 true_total)) * 4)))
       else if signed32 true_in = 0 then NaN
       else if 0 < signed32 true_in then NInf else PInf)"
    unfolding a by (simp add: record_cases)
  show ?thesis
    using a b unat_of_nat_32 [of true_total] unat_of_nat_32_self [of true_total]
      signed32_self [of true_in] signed32_self [of true_total]
    by (intro conjI)
qed

text \<open>
  On \<open>wrapped2\<close> the true sums are \<open>2 ^ 30\<close> of \<open>2 ^ 31\<close> points, an estimate of 2; the
  divisor is read as \<open>- 2 ^ 31\<close>, the estimate is \<open>- 2\<close> and the deviation
  \<open>test_pi + 2\<close>.
\<close>

theorem analysis_sums_wrap_witness:
  "deviation (analysis (\<lambda>x. x) wrapped2) =
     [\<lparr>accuracy = Finite (test_pi + 2), points = 2147483648\<rparr>] \<and>
   signed32 1073741824 = 1073741824 \<and> signed32 2147483648 = - 2147483648 \<and>
   accuracy (last (deviation (analysis (\<lambda>x. x) wrapped2))) =
     Finite (test_pi - (1073741824 / - 2147483648) * 4)"
  using analysis_sums_wrap [of "\<lambda>x. x" wrapped2]
  by (simp add: wrapped2_def upt_rec signed32_def)

end
